theory Spec2Isabelle
  imports Main
begin

section \<open>The Memento demonstration (src/design-pattern/behavioral/Memento.ts)\<close>

text \<open>
  The file holds three classes and a client script. \<open>Originator\<close> owns one string,
  \<open>ConcreteMemento\<close> is a captured copy of it with a creation date, and \<open>Caretaker\<close>
  keeps an array of mementos for one originator. Every method also writes to the console.

  A JavaScript string is modelled as \<open>string\<close>; one list element stands for one UTF-16
  code unit (every literal of the source is ASCII). The console is the list of the lines
  printed so far, oldest first. The two values the source takes from its environment are
  parameters: \<open>now\<close> is what \<open>new Date().toISOString()\<close> returns when a memento is
  constructed, and \<open>rnd\<close> is the value of
  \<open>Math.floor(Math.random() * charSet.length)\<close> inside \<open>generateRandomString\<close>.
\<close>

subsection \<open>String methods and the console\<close>

type_synonym console = "string list"

definition console_log :: "string \<Rightarrow> console \<Rightarrow> console" where
  "console_log line out = out @ [line]"

text \<open>\<open>s.charAt(i)\<close>: the empty string when \<open>i\<close> is out of range.\<close>

definition charAt :: "string \<Rightarrow> nat \<Rightarrow> string" where
  "charAt s i = (if i < length s then [s ! i] else [])"

text \<open>\<open>s.substr(start, len)\<close> and \<open>s.slice(b, e)\<close> for non-negative arguments: both stop
  at the end of the string.\<close>

definition substr :: "string \<Rightarrow> nat \<Rightarrow> nat \<Rightarrow> string" where
  "substr s start len = take len (drop start s)"

definition slice :: "string \<Rightarrow> nat \<Rightarrow> nat \<Rightarrow> string" where
  "slice s b e = take (e - b) (drop b s)"

text \<open>\<open>s.replace(pat, rep)\<close> with a string pattern: only the first occurrence is replaced
  (the replacement is taken literally; the one in the source holds no \<open>$\<close>).\<close>

fun replace :: "string \<Rightarrow> string \<Rightarrow> string \<Rightarrow> string" where
  "replace [] pat rep = (if pat = [] then rep else [])"
| "replace (c # cs) pat rep =
     (if take (length pat) (c # cs) = pat then rep @ drop (length pat) (c # cs)
      else c # replace cs pat rep)"

subsection \<open>Originator\<close>

record Originator =
  state :: string

definition Originator_new :: "string \<Rightarrow> console \<Rightarrow> Originator \<times> console" where
  "Originator_new st out =
     (\<lparr>state = st\<rparr>, console_log (''Originator: My initial state is: '' @ st) out)"

definition charSet :: string where
  "charSet = ''abcdefghijklmnopqrstuvwxyzABCDEFGHIJKLMNOPQRSTUVWXYZ''"

text \<open>
  \<open>Array({ length })\<close> is the array whose single element is the object \<open>{ length }\<close>, so
  the callback of \<open>map\<close> runs once and the joined result is one character of \<open>charSet\<close>,
  whatever \<open>length\<close> is.
\<close>

definition generateRandomString :: "nat \<Rightarrow> nat \<Rightarrow> string" where
  "generateRandomString len rnd = concat (map (\<lambda>_. charAt charSet rnd) [len])"

definition doSomething :: "nat \<Rightarrow> Originator \<Rightarrow> console \<Rightarrow> Originator \<times> console" where
  "doSomething rnd this out =
     (let out1 = console_log ''Originator: I'm doing something important.'' out;
          this1 = this\<lparr>state := generateRandomString 30 rnd\<rparr>;
          out2 = console_log (''Originator: and my state has changed to: '' @ state this1) out1
      in (this1, out2))"

subsection \<open>ConcreteMemento\<close>

record ConcreteMemento =
  memento_state :: string
  memento_date :: string

definition ConcreteMemento_new :: "string \<Rightarrow> string \<Rightarrow> ConcreteMemento" where
  "ConcreteMemento_new st now =
     \<lparr>memento_state = st, memento_date = replace (slice now 0 19) ''T'' '' ''\<rparr>"

definition getState :: "ConcreteMemento \<Rightarrow> string" where
  "getState this = memento_state this"

definition getName :: "ConcreteMemento \<Rightarrow> string" where
  "getName this = memento_date this @ '' / ('' @ substr (memento_state this) 0 9 @ ''...)''"

definition getDate :: "ConcreteMemento \<Rightarrow> string" where
  "getDate this = memento_date this"

definition save :: "string \<Rightarrow> Originator \<Rightarrow> ConcreteMemento" where
  "save now this = ConcreteMemento_new (state this) now"

definition restore :: "ConcreteMemento \<Rightarrow> Originator \<Rightarrow> console \<Rightarrow> Originator \<times> console" where
  "restore memento this out =
     (let this1 = this\<lparr>state := getState memento\<rparr>
      in (this1, console_log (''Originator: My state has changed to: '' @ state this1) out))"

subsection \<open>Caretaker and the running program\<close>

text \<open>
  The caretaker's \<open>originator\<close> field refers to the same object the client mutates, so
  the program state holds that one originator, the caretaker's \<open>mementos\<close> array (oldest
  at index 0, \<open>push\<close> and \<open>pop\<close> work at the end) and the console.
\<close>

record world =
  originator :: Originator
  mementos :: "ConcreteMemento list"
  console :: console

datatype error = Error

text \<open>\<open>Array.prototype.pop\<close>: \<open>undefined\<close> (here \<open>None\<close>) on an empty array.\<close>

definition pop :: "'a list \<Rightarrow> 'a option \<times> 'a list" where
  "pop xs = (if xs = [] then (None, []) else (Some (last xs), butlast xs))"

definition backup :: "string \<Rightarrow> world \<Rightarrow> world" where
  "backup now w =
     (let out1 = console_log ''\<newline>Caretaker: Saving Originator's state...'' (console w)
      in w\<lparr>mementos := mementos w @ [save now (originator w)], console := out1\<rparr>)"

definition undo :: "world \<Rightarrow> error + world" where
  "undo w =
     (if length (mementos w) = 0 then Inr w
      else case pop (mementos w) of
             (None, rest) \<Rightarrow> Inl Error
           | (Some memento, rest) \<Rightarrow>
               (let out1 = console_log (''Caretaker: Restoring state to: '' @ getName memento)
                             (console w);
                    (orig, out2) = restore memento (originator w) out1
                in Inr \<lparr>originator = orig, mementos = rest, console = out2\<rparr>))"

definition showHistory :: "world \<Rightarrow> world" where
  "showHistory w =
     w\<lparr>console :=
         fold (\<lambda>memento out. console_log (getName memento) out) (mementos w)
           (console_log ''Caretaker: Here's the list of mementos:'' (console w))\<rparr>"

subsection \<open>The client\<close>

text \<open>\<open>new Originator(st)\<close> followed by \<open>new Caretaker(originator)\<close>, on an empty console.\<close>

definition client_init :: "string \<Rightarrow> world" where
  "client_init st =
     (let (orig, out) = Originator_new st []
      in \<lparr>originator = orig, mementos = [], console = out\<rparr>)"

text \<open>The client's own call \<open>originator.doSomething()\<close>.\<close>

definition client_doSomething :: "nat \<Rightarrow> world \<Rightarrow> world" where
  "client_doSomething rnd w =
     (let (orig, out) = doSomething rnd (originator w) (console w)
      in w\<lparr>originator := orig, console := out\<rparr>)"

text \<open>The calls a client can make, and runs of them; a run stops at the first thrown error.\<close>

datatype op = DoSomething nat | Backup string | Undo | ShowHistory

fun exec :: "op \<Rightarrow> world \<Rightarrow> error + world" where
  "exec (DoSomething rnd) w = Inr (client_doSomething rnd w)"
| "exec (Backup now) w = Inr (backup now w)"
| "exec Undo w = undo w"
| "exec ShowHistory w = Inr (showHistory w)"

fun run :: "op list \<Rightarrow> world \<Rightarrow> error + world" where
  "run [] w = Inr w"
| "run (x # xs) w = (case exec x w of Inl e \<Rightarrow> Inl e | Inr w' \<Rightarrow> run xs w')"

text \<open>\<open>n\<close> calls of \<open>caretaker.undo()\<close> in a row.\<close>

fun undo_times :: "nat \<Rightarrow> world \<Rightarrow> error + world" where
  "undo_times 0 w = Inr w"
| "undo_times (Suc n) w = (case undo w of Inl e \<Rightarrow> Inl e | Inr w' \<Rightarrow> undo_times n w')"

text \<open>
  The client script at the end of the file: three backups, each followed by a mutation,
  the listing, and two undos. It reads the clock three times and the random source three
  times.
\<close>

definition client :: "string \<Rightarrow> string \<Rightarrow> string \<Rightarrow> nat \<Rightarrow> nat \<Rightarrow> nat \<Rightarrow> error + world" where
  "client now1 now2 now3 rnd1 rnd2 rnd3 =
     (let w0 = client_init ''Super-duper-super-puper-super.'';
          w1 = client_doSomething rnd1 (backup now1 w0);
          w2 = client_doSomething rnd2 (backup now2 w1);
          w3 = client_doSomething rnd3 (backup now3 w2);
          w4 = showHistory (w3\<lparr>console := console_log [] (console w3)\<rparr>);
          w5 = w4\<lparr>console :=
                 console_log ''\<newline>Client: Now, let's rollback!\<newline>'' (console w4)\<rparr>
      in case undo w5 of
           Inl e \<Rightarrow> Inl e
         | Inr w6 \<Rightarrow>
             undo (w6\<lparr>console :=
                       console_log ''\<newline>Client: Once more!\<newline>'' (console w6)\<rparr>))"

text \<open>
  Two ways a client can pair mutations with captures: one mutation followed by one
  \<open>backup\<close>, and (the order of the client script) one \<open>backup\<close> followed by any number
  of mutations.
\<close>

definition mutate_then_backup :: "nat \<times> string \<Rightarrow> world \<Rightarrow> world" where
  "mutate_then_backup p w = backup (snd p) (client_doSomething (fst p) w)"

definition backup_then_mutate :: "string \<times> nat list \<Rightarrow> world \<Rightarrow> world" where
  "backup_then_mutate p w = fold client_doSomething (snd p) (backup (fst p) w)"

text \<open>
  \<open>retained i ops w\<close>: position \<open>i\<close> of the history is occupied in \<open>w\<close> and stays occupied
  before and after every call of the run \<open>ops\<close>, so the memento in it is never popped.
\<close>

fun retained :: "nat \<Rightarrow> op list \<Rightarrow> world \<Rightarrow> bool" where
  "retained i [] w = (i < length (mementos w))"
| "retained i (x # xs) w =
     (i < length (mementos w) \<and>
      (case exec x w of Inl e \<Rightarrow> False | Inr w' \<Rightarrow> retained i xs w'))"

section \<open>Basic facts\<close>

lemma pop_snoc: "pop (xs @ [x]) = (Some x, xs)"
  by (simp add: pop_def)

lemma undo_empty: "mementos w = [] \<Longrightarrow> undo w = Inr w"
  by (simp add: undo_def)

lemma undo_snoc:
  "mementos w = ms @ [m] \<Longrightarrow>
   undo w = Inr \<lparr>originator = (originator w)\<lparr>state := getState m\<rparr>, mementos = ms,
                 console = console w @ [''Caretaker: Restoring state to: '' @ getName m,
                                        ''Originator: My state has changed to: '' @ getState m]\<rparr>"
  by (simp add: undo_def pop_snoc restore_def console_log_def)

lemma fold_console_log:
  "fold (\<lambda>memento out. console_log (getName memento) out) ms out = out @ map getName ms"
  by (induction ms arbitrary: out) (simp_all add: console_log_def)

lemma take_min_length: "take (min (length s) n) s = take n s"
  by (simp add: min_def)

lemma mementos_client_doSomething [simp]: "mementos (client_doSomething rnd w) = mementos w"
  by (simp add: client_doSomething_def doSomething_def Let_def)

lemma originator_client_doSomething [simp]:
  "originator (client_doSomething rnd w) = (originator w)\<lparr>state := generateRandomString 30 rnd\<rparr>"
  by (simp add: client_doSomething_def doSomething_def Let_def)

lemma mementos_backup [simp]: "mementos (backup now w) = mementos w @ [save now (originator w)]"
  by (simp add: backup_def Let_def)

lemma originator_backup [simp]: "originator (backup now w) = originator w"
  by (simp add: backup_def Let_def)

lemma mementos_showHistory [simp]: "mementos (showHistory w) = mementos w"
  by (simp add: showHistory_def)

lemma originator_showHistory [simp]: "originator (showHistory w) = originator w"
  by (simp add: showHistory_def)

lemma mementos_fold_doSomething [simp]: "mementos (fold client_doSomething rs w) = mementos w"
  by (induction rs arbitrary: w) simp_all

lemma mementos_client_init [simp]: "mementos (client_init st) = []"
  by (simp add: client_init_def Originator_new_def)

lemma originator_client_init [simp]: "originator (client_init st) = \<lparr>state = st\<rparr>"
  by (simp add: client_init_def Originator_new_def)

lemma getState_save [simp]: "getState (save now orig) = state orig"
  by (simp add: getState_def save_def ConcreteMemento_new_def)

text \<open>Undoing as many times as there are snapshots above a base \<open>pre\<close> of the history
  removes exactly those, and the owner ends with the state of the oldest of them.\<close>

lemma undo_times_append:
  "mementos w = pre @ xs \<Longrightarrow>
   \<exists>w'. undo_times (length xs) w = Inr w' \<and> mementos w' = pre \<and>
        originator w' = (if xs = [] then originator w
                         else (originator w)\<lparr>state := getState (hd xs)\<rparr>)"
proof (induction xs arbitrary: w rule: rev_induct)
  case Nil
  then show ?case by simp
next
  case (snoc x xs)
  define w1 where "w1 = \<lparr>originator = (originator w)\<lparr>state := getState x\<rparr>, mementos = pre @ xs,
    console = console w @ [''Caretaker: Restoring state to: '' @ getName x,
                           ''Originator: My state has changed to: '' @ getState x]\<rparr>"
  from snoc.prems have "mementos w = (pre @ xs) @ [x]" by simp
  then have step: "undo w = Inr w1" unfolding w1_def by (rule undo_snoc)
  have "mementos w1 = pre @ xs" by (simp add: w1_def)
  from snoc.IH [OF this] obtain w' where
    w': "undo_times (length xs) w1 = Inr w'" "mementos w' = pre"
        "originator w' = (if xs = [] then originator w1
                          else (originator w1)\<lparr>state := getState (hd xs)\<rparr>)"
    by blast
  have "undo_times (length (xs @ [x])) w = Inr w'" using step w'(1) by simp
  moreover have "originator w' = (originator w)\<lparr>state := getState (hd (xs @ [x]))\<rparr>"
    using w'(3) by (cases xs) (simp_all add: w1_def)
  ultimately show ?case using w'(2) by auto
qed

lemma fold_mutate_then_backup:
  "mementos (fold mutate_then_backup ms w) =
     mementos w @ map (\<lambda>p. ConcreteMemento_new (generateRandomString 30 (fst p)) (snd p)) ms"
  by (induction ms arbitrary: w) (simp_all add: mutate_then_backup_def save_def)

lemma originator_fold_mutate_then_backup:
  "originator (fold mutate_then_backup ms w) =
     (if ms = [] then originator w
      else (originator w)\<lparr>state := generateRandomString 30 (fst (last ms))\<rparr>)"
  by (induction ms arbitrary: w) (simp_all add: mutate_then_backup_def)

lemma fold_backup_then_mutate:
  "\<exists>xs. mementos (fold backup_then_mutate caps w) = mementos w @ xs \<and>
        length xs = length caps \<and>
        (if xs = [] then caps = [] else getState (hd xs) = state (originator w))"
proof (induction caps arbitrary: w)
  case Nil
  then show ?case by simp
next
  case (Cons c caps)
  obtain xs where xs:
    "mementos (fold backup_then_mutate caps (backup_then_mutate c w)) =
       mementos (backup_then_mutate c w) @ xs"
    "length xs = length caps"
    using Cons.IH [of "backup_then_mutate c w"] by blast
  have "mementos (fold backup_then_mutate (c # caps) w) =
          mementos w @ (save (fst c) (originator w) # xs)"
    using xs(1) by (simp add: backup_then_mutate_def)
  moreover have "length (save (fst c) (originator w) # xs) = length (c # caps)"
    using xs(2) by simp
  moreover have "getState (hd (save (fst c) (originator w) # xs)) = state (originator w)"
    by simp
  ultimately show ?case by (intro exI [of _ "save (fst c) (originator w) # xs"]) simp
qed

lemma exec_keeps_retained_entry:
  "exec x w = Inr w' \<Longrightarrow> i < length (mementos w) \<Longrightarrow> i < length (mementos w') \<Longrightarrow>
   mementos w' ! i = mementos w ! i"
proof (cases x)
  case (DoSomething rnd)
  then show "exec x w = Inr w' \<Longrightarrow> ?thesis" by auto
next
  case (Backup now)
  then show "exec x w = Inr w' \<Longrightarrow> i < length (mementos w) \<Longrightarrow> ?thesis"
    by (auto simp: nth_append)
next
  case Undo
  assume run: "exec x w = Inr w'" and i: "i < length (mementos w')"
  show ?thesis
  proof (cases "mementos w" rule: rev_cases)
    case Nil
    with run Undo show ?thesis by (simp add: undo_empty)
  next
    case (snoc ms m)
    with run Undo have "mementos w' = ms" by (auto simp: undo_snoc)
    with i snoc show ?thesis by (simp add: nth_append)
  qed
next
  case ShowHistory
  then show "exec x w = Inr w' \<Longrightarrow> ?thesis" by auto
qed

lemma retained_occupied: "retained i ops w \<Longrightarrow> i < length (mementos w)"
  by (cases ops) simp_all

lemma retained_entry_unchanged:
  "retained i ops w \<Longrightarrow>
   \<exists>w'. run ops w = Inr w' \<and> i < length (mementos w') \<and> mementos w' ! i = mementos w ! i"
proof (induction ops arbitrary: w)
  case Nil
  then show ?case by simp
next
  case (Cons x xs)
  from Cons.prems obtain w1 where
    w1: "exec x w = Inr w1" "retained i xs w1" and i: "i < length (mementos w)"
    by (auto split: sum.splits)
  from Cons.IH [OF w1(2)] obtain w' where
    w': "run xs w1 = Inr w'" "i < length (mementos w')" "mementos w' ! i = mementos w1 ! i"
    by blast
  have "mementos w1 ! i = mementos w ! i"
    using w1(1) i retained_occupied [OF w1(2)] by (rule exec_keeps_retained_entry)
  with w1(1) w' show ?case by simp
qed

text \<open>
  The round trip in the order of the client script. \<open>backup\<close> only pushes, so after any
  number of backups, each followed by any mutations, the history has grown by exactly that
  number of entries, and undoing that many times brings back the history and the owner's
  state from before the first of them.
\<close>

lemma undo_all_after_backup_then_mutate:
  "length (mementos (fold backup_then_mutate caps w)) = length (mementos w) + length caps \<and>
   (\<exists>u. undo_times (length caps) (fold backup_then_mutate caps w) = Inr u \<and>
        mementos u = mementos w \<and> state (originator u) = state (originator w))"
proof -
  let ?w = "fold backup_then_mutate caps w"
  obtain xs where xs: "mementos ?w = mementos w @ xs" "length xs = length caps"
    "if xs = [] then caps = [] else getState (hd xs) = state (originator w)"
    using fold_backup_then_mutate [of caps w] by blast
  from undo_times_append [OF xs(1)] obtain u where
    u: "undo_times (length xs) ?w = Inr u" "mementos u = mementos w"
       "originator u = (if xs = [] then originator ?w
                        else (originator ?w)\<lparr>state := getState (hd xs)\<rparr>)"
    by blast
  have "state (originator u) = state (originator w)"
  proof (cases "xs = []")
    case True
    with xs(3) have "caps = []" by simp
    with u(3) True show ?thesis by simp
  next
    case False
    with xs(3) u(3) show ?thesis by simp
  qed
  with u(1,2) xs(1,2) show ?thesis by simp
qed

text \<open>
  The client script ends normally with one memento left, the one holding the initial
  state, and with the owner at the state the second backup captured.
\<close>

lemma client_result:
  "\<exists>w. client now1 now2 now3 rnd1 rnd2 rnd3 = Inr w \<and>
       map getState (mementos w) = [''Super-duper-super-puper-super.''] \<and>
       state (originator w) = charAt charSet rnd1"
  by (simp add: client_def undo_def pop_def restore_def Let_def generateRandomString_def)

section \<open>The claims\<close>

text \<open>
  C10. The \<open>throw new Error()\<close> of \<open>Caretaker.undo\<close> cannot be reached: \<open>pop\<close> returns
  \<open>undefined\<close> exactly on an empty array, and that case has already returned at the guard,
  so \<open>undo\<close> always completes normally.
\<close>

theorem undo_never_throws:
  "(\<exists>w'. undo w = Inr w') \<and> (fst (pop (mementos w)) = None) = (length (mementos w) = 0)"
proof (cases "mementos w" rule: rev_cases)
  case Nil
  then show ?thesis by (simp add: undo_empty pop_def)
next
  case (snoc ms m)
  then show ?thesis by (simp add: undo_snoc pop_snoc)
qed

text \<open>
  C2, as the code has it. With an empty history \<open>undo\<close> returns at its guard: it completes
  normally with no result value, and the history, the owner's value and the console are
  all as before.
\<close>

theorem undo_on_empty_history_is_silent:
  "length (mementos w) = 0 \<Longrightarrow> undo w = Inr w"
  by (simp add: undo_def)

theorem undo_on_empty_history_is_silent_witness:
  "length (mementos (client_init ''Super-duper-super-puper-super.'')) = 0 \<and>
   undo (client_init ''Super-duper-super-puper-super.'') =
     Inr (client_init ''Super-duper-super-puper-super.'')"
  using undo_on_empty_history_is_silent [of "client_init ''Super-duper-super-puper-super.''"]
  by simp

text \<open>
  C2 as stated fails: on the freshly created caretaker \<open>undo\<close> does not fail with an error
  value, it returns normally and silently.
\<close>

theorem undo_empty_not_an_error:
  "\<not> isl (undo (client_init ''A'')) \<and>
   console (projr (undo (client_init ''A''))) = console (client_init ''A'')"
  by (simp add: undo_def)

text \<open>
  C9. The label of a snapshot is its date, then \<open>" / ("\<close>, then the first nine code units
  of the captured state (all of it when it is shorter), then \<open>"...)"\<close>. So that prefix of
  the state can be computed from \<open>getName\<close> and \<open>getDate\<close> alone, for every snapshot and
  in particular for the one \<open>save\<close> makes of an originator.
\<close>

theorem getName_leaks_state_prefix:
  "getName m = getDate m @ '' / ('' @ take 9 (getState m) @ ''...)'' \<and>
   take (length (getName m) - length (getDate m) - 8)
        (drop (length (getDate m) + 4) (getName m)) = take 9 (getState m) \<and>
   take (length (getName (save now orig)) - length (getDate (save now orig)) - 8)
        (drop (length (getDate (save now orig)) + 4) (getName (save now orig)))
     = take 9 (state orig)"
  by (simp add: getName_def getDate_def getState_def substr_def save_def
        ConcreteMemento_new_def take_min_length)

text \<open>
  C4, as the code has it. A memento carries no owner identity and \<open>restore\<close> checks
  nothing and cannot fail: restoring a snapshot taken from originator \<open>a\<close> onto any
  originator \<open>b\<close> sets the state of \<open>b\<close> to the captured state of \<open>a\<close> and prints one line.
\<close>

theorem restore_accepts_any_snapshot:
  "restore (save now a) b out =
     (b\<lparr>state := state a\<rparr>, out @ [''Originator: My state has changed to: '' @ state a]) \<and>
   state (fst (restore m b out)) = getState m"
  by (simp add: restore_def console_log_def)

text \<open>
  C4 as stated fails: a snapshot of an originator holding \<open>"A"\<close> is restored onto another
  originator holding \<open>"B"\<close>, whose state becomes \<open>"A"\<close>.
\<close>

theorem restore_foreign_snapshot_overwrites:
  "state (fst (restore (save ''2024-05-06T07:08:09.123Z'' \<lparr>state = ''A''\<rparr>)
                       \<lparr>state = ''B''\<rparr> [])) = ''A'' \<and>
   state (fst (restore (save ''2024-05-06T07:08:09.123Z'' \<lparr>state = ''A''\<rparr>)
                       \<lparr>state = ''B''\<rparr> [])) \<noteq> state \<lparr>state = ''B''\<rparr>"
  by (simp add: restore_def)

text \<open>
  C7, as the code has it. \<open>showHistory\<close> prints a header line and then the label of every
  memento in array order, that is from the oldest to the most recent; it changes nothing
  but the console.
\<close>

theorem showHistory_lists_oldest_first:
  "showHistory w =
     w\<lparr>console := console w @ ''Caretaker: Here's the list of mementos:'' #
                                map getName (mementos w)\<rparr>"
  unfolding showHistory_def fold_console_log by (simp add: console_log_def)

text \<open>
  C7 as stated fails: after two backups with a mutation between them, the lines printed
  after the header are not the labels from the most recent to the oldest.
\<close>

theorem showHistory_not_most_recent_first:
  "drop (Suc (length (console (backup ''2024-05-06T07:08:10.000Z''
            (client_doSomething 1 (backup ''2024-05-06T07:08:09.000Z'' (client_init ''A'')))))))
     (console (showHistory (backup ''2024-05-06T07:08:10.000Z''
            (client_doSomething 1 (backup ''2024-05-06T07:08:09.000Z'' (client_init ''A''))))))
   = [''2024-05-06 07:08:09 / (A...)'', ''2024-05-06 07:08:10 / (b...)''] \<and>
   map getName (rev (mementos (backup ''2024-05-06T07:08:10.000Z''
            (client_doSomething 1 (backup ''2024-05-06T07:08:09.000Z'' (client_init ''A''))))))
   = [''2024-05-06 07:08:10 / (b...)'', ''2024-05-06 07:08:09 / (A...)'']"
  unfolding showHistory_def fold_console_log
  by (simp add: console_log_def backup_def
        client_doSomething_def doSomething_def client_init_def Originator_new_def
        save_def ConcreteMemento_new_def getName_def substr_def slice_def
        generateRandomString_def charAt_def charSet_def Let_def)

text \<open>
  C1, as the code has it. After \<open>n\<close> mutations, each followed by a \<open>backup\<close>, the history
  holds the \<open>n\<close> values the mutations produced, so \<open>n\<close> undos empty it and leave the owner
  with the value captured by the first backup: the value the first mutation produced when
  \<open>n \<ge> 1\<close>, and \<open>v0\<close> when \<open>n = 0\<close>. One further \<open>undo\<close> returns normally and changes
  nothing.
\<close>

theorem undo_all_after_mutate_then_backup:
  "\<exists>w'. undo_times (length ms) (fold mutate_then_backup ms (client_init v0)) = Inr w' \<and>
        mementos w' = [] \<and>
        state (originator w') =
          (case ms of [] \<Rightarrow> v0 | p # _ \<Rightarrow> generateRandomString 30 (fst p)) \<and>
        undo w' = Inr w'"
proof -
  let ?w = "fold mutate_then_backup ms (client_init v0)"
  let ?xs = "map (\<lambda>p. ConcreteMemento_new (generateRandomString 30 (fst p)) (snd p)) ms"
  have "mementos ?w = [] @ ?xs" by (simp add: fold_mutate_then_backup)
  from undo_times_append [OF this] obtain w' where
    w': "undo_times (length ?xs) ?w = Inr w'" "mementos w' = []"
        "originator w' = (if ?xs = [] then originator ?w
                          else (originator ?w)\<lparr>state := getState (hd ?xs)\<rparr>)"
    by blast
  have "state (originator w') =
          (case ms of [] \<Rightarrow> v0 | p # _ \<Rightarrow> generateRandomString 30 (fst p))"
    using w'(3)
    by (cases ms) (simp_all add: getState_def ConcreteMemento_new_def)
  moreover have "undo w' = Inr w'" using w'(2) by (rule undo_empty)
  ultimately show ?thesis using w'(1,2) by auto
qed

text \<open>
  C1 as stated fails: start with \<open>"A"\<close>, mutate once (to \<open>"b"\<close>) and back up; one undo
  leaves the owner at \<open>"b"\<close>, not at \<open>"A"\<close>, and the next undo is not an error.
\<close>

theorem undo_after_mutate_then_backup_not_initial:
  "state (originator (projr (undo_times 1
      (fold mutate_then_backup [(1, ''2024-05-06T07:08:09.000Z'')] (client_init ''A'')))))
     = ''b'' \<and>
   state (originator (projr (undo_times 1
      (fold mutate_then_backup [(1, ''2024-05-06T07:08:09.000Z'')] (client_init ''A'')))))
     \<noteq> ''A'' \<and>
   \<not> isl (undo (projr (undo_times 1
      (fold mutate_then_backup [(1, ''2024-05-06T07:08:09.000Z'')] (client_init ''A'')))))"
  by (simp add: mutate_then_backup_def undo_def pop_def restore_def backup_def
        client_doSomething_def doSomething_def client_init_def Originator_new_def
        save_def ConcreteMemento_new_def getState_def console_log_def
        generateRandomString_def charAt_def charSet_def Let_def)

text \<open>
  C3. Three backups \<open>s1\<close>, \<open>s2\<close>, \<open>s3\<close> taken in that order from any world, with any
  mutations after each: the first undo restores the state \<open>s3\<close> captured, the second the
  state \<open>s2\<close> captured, the third the state \<open>s1\<close> captured, and the history is then what
  it was before the three backups.
\<close>

theorem undo_is_lifo:
  "let w1 = backup t1 w0; s1 = last (mementos w1); m1 = fold client_doSomething rs1 w1;
       w2 = backup t2 m1; s2 = last (mementos w2); m2 = fold client_doSomething rs2 w2;
       w3 = backup t3 m2; s3 = last (mementos w3); m3 = fold client_doSomething rs3 w3
   in getState s1 = state (originator w0) \<and> getState s2 = state (originator m1) \<and>
      getState s3 = state (originator m2) \<and>
      (\<exists>u1 u2 u3.
         undo m3 = Inr u1 \<and> state (originator u1) = getState s3 \<and>
         undo u1 = Inr u2 \<and> state (originator u2) = getState s2 \<and>
         undo u2 = Inr u3 \<and> state (originator u3) = getState s1 \<and>
         mementos u3 = mementos w0)"
proof -
  define w1 where "w1 = backup t1 w0"
  define m1 where "m1 = fold client_doSomething rs1 w1"
  define w2 where "w2 = backup t2 m1"
  define m2 where "m2 = fold client_doSomething rs2 w2"
  define w3 where "w3 = backup t3 m2"
  define m3 where "m3 = fold client_doSomething rs3 w3"
  define s1 where "s1 = save t1 (originator w0)"
  define s2 where "s2 = save t2 (originator m1)"
  define s3 where "s3 = save t3 (originator m2)"
  have l1: "last (mementos w1) = s1" by (simp add: w1_def s1_def)
  have l2: "last (mementos w2) = s2" by (simp add: w2_def s2_def)
  have l3: "last (mementos w3) = s3" by (simp add: w3_def s3_def)
  have h: "mementos m3 = (mementos w0 @ [s1, s2]) @ [s3]"
    by (simp add: m3_def w3_def m2_def w2_def m1_def w1_def s1_def s2_def s3_def)
  from undo_snoc [OF h] obtain u1 where
    u1: "undo m3 = Inr u1" "state (originator u1) = getState s3"
        "mementos u1 = (mementos w0 @ [s1]) @ [s2]"
    by simp
  from undo_snoc [OF u1(3)] obtain u2 where
    u2: "undo u1 = Inr u2" "state (originator u2) = getState s2"
        "mementos u2 = mementos w0 @ [s1]"
    by simp
  from undo_snoc [OF u2(3)] obtain u3 where
    u3: "undo u2 = Inr u3" "state (originator u3) = getState s1" "mementos u3 = mementos w0"
    by simp
  have "getState s1 = state (originator w0)" "getState s2 = state (originator m1)"
       "getState s3 = state (originator m2)"
    by (simp_all add: s1_def s2_def s3_def)
  with u1 u2 u3 have
    "getState s1 = state (originator w0) \<and> getState s2 = state (originator m1) \<and>
     getState s3 = state (originator m2) \<and>
     (\<exists>u1 u2 u3.
        undo m3 = Inr u1 \<and> state (originator u1) = getState s3 \<and>
        undo u1 = Inr u2 \<and> state (originator u2) = getState s2 \<and>
        undo u2 = Inr u3 \<and> state (originator u3) = getState s1 \<and>
        mementos u3 = mementos w0)"
    by blast
  then show ?thesis
    unfolding Let_def l1 [unfolded w1_def] l2 [unfolded w2_def m1_def w1_def]
      l3 [unfolded w3_def m2_def w2_def m1_def w1_def]
      m1_def m2_def m3_def w1_def w2_def w3_def .
qed

text \<open>
  C8. A memento has no method that writes its fields, and no call a client can make
  writes them either: over any run of mutations, backups, undos and listings during which
  a snapshot stays in the history, it is the same value at the end as at the start, so
  \<open>getState\<close>, \<open>getName\<close> and \<open>getDate\<close> return what they returned at first. The
  snapshot a \<open>backup\<close> takes still returns the owner's state at the time of the backup
  after any number of later mutations of the owner.
\<close>

theorem snapshot_never_changes:
  "retained i ops w \<Longrightarrow>
   \<exists>w'. run ops w = Inr w' \<and>
        getState (mementos w' ! i) = getState (mementos w ! i) \<and>
        getName (mementos w' ! i) = getName (mementos w ! i) \<and>
        getDate (mementos w' ! i) = getDate (mementos w ! i) \<and>
        getState (last (mementos (fold client_doSomething rs (backup now w))))
          = state (originator w)"
proof -
  assume "retained i ops w"
  from retained_entry_unchanged [OF this] obtain w' where
    "run ops w = Inr w'" "mementos w' ! i = mementos w ! i"
    by blast
  then show ?thesis by simp
qed

theorem snapshot_never_changes_witness:
  "retained 0 [DoSomething 1, Backup ''2024-05-06T07:08:10.000Z'', DoSomething 2, Undo,
               ShowHistory, DoSomething 3]
     (backup ''2024-05-06T07:08:09.000Z'' (client_init ''A'')) \<and>
   (\<exists>w'. run [DoSomething 1, Backup ''2024-05-06T07:08:10.000Z'', DoSomething 2, Undo,
              ShowHistory, DoSomething 3]
           (backup ''2024-05-06T07:08:09.000Z'' (client_init ''A'')) = Inr w' \<and>
         getState (mementos w' ! 0) = ''A'' \<and>
         getName (mementos w' ! 0) = ''2024-05-06 07:08:09 / (A...)'' \<and>
         getDate (mementos w' ! 0) = ''2024-05-06 07:08:09'')"
proof -
  let ?w = "backup ''2024-05-06T07:08:09.000Z'' (client_init ''A'')"
  let ?ops = "[DoSomething 1, Backup ''2024-05-06T07:08:10.000Z'', DoSomething 2, Undo,
               ShowHistory, DoSomething 3]"
  have r: "retained 0 ?ops ?w"
    by (simp add: undo_def pop_def restore_def Let_def)
  have m: "mementos ?w ! 0 = \<lparr>memento_state = ''A'', memento_date = ''2024-05-06 07:08:09''\<rparr>"
    by (simp add: save_def ConcreteMemento_new_def slice_def)
  from snapshot_never_changes [OF r] obtain w' where
    "run ?ops ?w = Inr w'"
    "getState (mementos w' ! 0) = getState (mementos ?w ! 0)"
    "getName (mementos w' ! 0) = getName (mementos ?w ! 0)"
    "getDate (mementos w' ! 0) = getDate (mementos ?w ! 0)"
    by blast
  then have "run ?ops ?w = Inr w' \<and>
         getState (mementos w' ! 0) = ''A'' \<and>
         getName (mementos w' ! 0) = ''2024-05-06 07:08:09 / (A...)'' \<and>
         getDate (mementos w' ! 0) = ''2024-05-06 07:08:09''"
    unfolding m by (simp add: getState_def getName_def getDate_def substr_def)
  with r show ?thesis by blast
qed

end
